theory Spec2Isabelle
  imports Main
begin

section \<open>The wad command of quake-cli-tools (qcli/wad/cli.py)\<close>

text \<open>
  The command packs images into a WAD archive. Everything it does to pixels is done by
  calls into Pillow, and the archive is written by vgio; neither library is part of the
  program. The embedding therefore keeps the program's own logic (which image is
  scanned, which palette is chosen, which image is resized to which size, how offsets
  and sizes are computed, how errors travel) and takes the library calls as fields of an
  environment record, each returning either an exception or a value.
\<close>

subsection \<open>Exceptions and images\<close>

text \<open>
  An exception raised inside a library call carries a message. What can end the run is
  such an exception left uncaught, or \<open>SystemExit\<close> with the exit status and the message
  written to standard error.
\<close>

datatype exc = PyException string


text \<open>
  A Pillow image as the program sees it: \<open>img.mode\<close>, \<open>img.width\<close>, \<open>img.height\<close> and
  the bytes of \<open>img.tobytes()\<close>. For mode \<open>P\<close> there is one byte per pixel, row by row.
\<close>

record image =
  mode :: string
  width :: nat
  height :: nat
  tobytes :: "nat list"

text \<open>\<open>img.getpixel((x, y))\<close> of a mode \<open>P\<close> image: the palette index stored at column x of row y.\<close>

definition getpixel :: "image \<Rightarrow> nat \<times> nat \<Rightarrow> nat" where
  "getpixel img xy = (case xy of (x, y) \<Rightarrow> tobytes img ! (y * width img + x))"

subsection \<open>has_fullbright (lines 22-28)\<close>

text \<open>
  The two nested loops. \<open>Some True\<close> is \<open>return True\<close>; \<open>None\<close> is Python's \<open>None\<close>, the
  value of a function whose body ends without a \<open>return\<close>.
\<close>

fun has_fullbright_row :: "image \<Rightarrow> nat \<Rightarrow> nat list \<Rightarrow> bool option" where
  "has_fullbright_row img y [] = None"
| "has_fullbright_row img y (x # xs) =
     (if getpixel img (x, y) > 223 then Some True else has_fullbright_row img y xs)"

fun has_fullbright_rows :: "image \<Rightarrow> nat list \<Rightarrow> bool option" where
  "has_fullbright_rows img [] = None"
| "has_fullbright_rows img (y # ys) =
     (case has_fullbright_row img y [0..<width img] of
        Some r \<Rightarrow> Some r
      | None \<Rightarrow> has_fullbright_rows img ys)"

definition has_fullbright :: "image \<Rightarrow> bool option" where
  "has_fullbright img = has_fullbright_rows img [0..<height img]"

text \<open>
  The same loops, returning the coordinates handed to \<open>getpixel\<close> in the order of the
  calls: the reads the function performs before it returns.
\<close>

fun has_fullbright_row_reads :: "image \<Rightarrow> nat \<Rightarrow> nat list \<Rightarrow> (nat \<times> nat) list" where
  "has_fullbright_row_reads img y [] = []"
| "has_fullbright_row_reads img y (x # xs) =
     (if getpixel img (x, y) > 223 then [(x, y)]
      else (x, y) # has_fullbright_row_reads img y xs)"

fun has_fullbright_rows_reads :: "image \<Rightarrow> nat list \<Rightarrow> (nat \<times> nat) list" where
  "has_fullbright_rows_reads img [] = []"
| "has_fullbright_rows_reads img (y # ys) =
     (case has_fullbright_row img y [0..<width img] of
        Some r \<Rightarrow> has_fullbright_row_reads img y [0..<width img]
      | None \<Rightarrow> has_fullbright_row_reads img y [0..<width img] @ has_fullbright_rows_reads img ys)"

definition has_fullbright_reads :: "image \<Rightarrow> (nat \<times> nat) list" where
  "has_fullbright_reads img = has_fullbright_rows_reads img [0..<height img]"

text \<open>
  All coordinates of an image in the order of the two loops, and the part of a list up
  to and including its first element with a property.
\<close>

definition raster :: "image \<Rightarrow> (nat \<times> nat) list" where
  "raster img = concat (map (\<lambda>y. map (\<lambda>x. (x, y)) [0..<width img]) [0..<height img])"

definition upto_first :: "('a \<Rightarrow> bool) \<Rightarrow> 'a list \<Rightarrow> 'a list" where
  "upto_first P xs = takeWhile (\<lambda>x. \<not> P x) xs @ take 1 (dropWhile (\<lambda>x. \<not> P x) xs)"

text \<open>Python truthiness of the value \<open>has_fullbright\<close> returns: \<open>None\<close> and \<open>False\<close> are falsy.\<close>

definition truthy :: "bool option \<Rightarrow> bool" where
  "truthy v = (case v of None \<Rightarrow> False | Some b \<Rightarrow> b)"

text \<open>The image has a pixel in the fullbright band, said over its coordinates.\<close>

definition fullbright_pixel :: "image \<Rightarrow> bool" where
  "fullbright_pixel img = (\<exists>y < height img. \<exists>x < width img. getpixel img (x, y) > 223)"

subsection \<open>Command line arguments (lines 43-101)\<close>

datatype lump_type = LUMP | QPIC | MIPTEX

record args =
  arg_file :: string
  arg_list :: "string list"
  arg_type :: lump_type
  raw_color_mode :: bool
  smooth_mip :: bool
  smart_mip :: bool
  quiet :: bool

text \<open>Line 190: \<open>args.smooth_mip or (args.smart_mip and not has_fb)\<close>.\<close>

definition smooth_scaling :: "args \<Rightarrow> bool option \<Rightarrow> bool" where
  "smooth_scaling a has_fb = (smooth_mip a \<or> (smart_mip a \<and> \<not> truthy has_fb))"

subsection \<open>The libraries the program calls\<close>

type_synonym rgb = "nat \<times> nat \<times> nat"

text \<open>
  \<open>lmp.Lmp\<close> and \<open>wad.Miptexture\<close> of vgio, as far as the program fills them in, and
  \<open>wad.WadInfo\<close>, the directory entry of a lump.
\<close>

record lmp =
  lmp_width :: nat
  lmp_height :: nat
  lmp_pixels :: "nat list"

record miptexture =
  mip_name :: string
  mip_width :: nat
  mip_height :: nat
  mip_offsets :: "nat list"
  mip_pixels :: "nat list"

datatype compression_type = NONE | LZSS

record wadinfo =
  info_name :: string
  file_size :: nat
  disk_size :: nat
  compression :: compression_type
  info_type :: lump_type

text \<open>
  The calls into Pillow (\<open>Image.open\<close>, \<open>convert(mode='RGB')\<close>, \<open>quantize(palette=...)\<close>,
  \<open>resize\<close>) and into vgio (the two serialisers, \<open>WadFile.write\<close> of a file, the
  constant \<open>quake.palette\<close>). A palette image is represented by the flat palette it was
  given with \<open>putpalette\<close>. \<open>parser_status\<close> is the exit status of \<open>parser.error\<close>.
\<close>

record lib =
  Image_open :: "string \<Rightarrow> exc + image"
  convert_RGB :: "image \<Rightarrow> exc + image"
  quantize :: "nat list \<Rightarrow> image \<Rightarrow> exc + image"
  resize :: "image \<Rightarrow> nat \<times> nat \<Rightarrow> exc + image"
  Lmp_write :: "lmp \<Rightarrow> exc + nat list"
  Miptexture_write :: "miptexture \<Rightarrow> exc + nat list"
  WadFile_write :: "string \<Rightarrow> exc + wadinfo \<times> nat list"
  quake_palette :: "rgb list"
  parser_status :: nat

subsection \<open>The archive (vgio's WadFile, as the program uses it)\<close>

text \<open>
  The lumps appended so far with their entries, whether the file has been closed, and the
  directory as it stands in the file: \<open>close\<close> is what writes the entries out.
\<close>

record wadfile =
  entries :: "(wadinfo \<times> nat list) list"
  directory :: "wadinfo list"
  closed :: bool


definition close :: "wadfile \<Rightarrow> wadfile" where
  "close w = w\<lparr>directory := map fst (entries w), closed := True\<rparr>"

subsection \<open>Palettes (lines 125-137)\<close>

text \<open>Lines 126-128: \<open>palette = []; for p in quake.palette: palette += p\<close>.\<close>

definition palette_flat :: "rgb list \<Rightarrow> nat list" where
  "palette_flat qp = foldl (\<lambda>palette p. case p of (r, g, b) \<Rightarrow> palette @ [r, g, b]) [] qp"

text \<open>
  Line 135: \<open>palette[:-96] + [0] * 96\<close>. The slice \<open>[:-96]\<close> of a list shorter than 96 is
  empty, as is \<open>take\<close> of the truncated difference.
\<close>

definition palette_nofb :: "nat list \<Rightarrow> nat list" where
  "palette_nofb palette = take (length palette - 96) palette @ replicate 96 0"

text \<open>The colour a flat palette gives to index i: three consecutive bytes.\<close>

definition palette_entry :: "nat list \<Rightarrow> nat \<Rightarrow> rgb" where
  "palette_entry palette i = (palette ! (3 * i), palette ! (3 * i + 1), palette ! (3 * i + 2))"

subsection \<open>Lump names (lines 150 and 180)\<close>

text \<open>\<open>os.path.basename\<close> and \<open>os.path.dirname\<close> of posixpath, and \<open>str.split\<close> on one character.\<close>

definition rfind_sep :: "string \<Rightarrow> nat" where
  "rfind_sep p = length p - length (takeWhile (\<lambda>c. c \<noteq> CHR ''/'') (rev p))"

definition basename :: "string \<Rightarrow> string" where
  "basename p = drop (rfind_sep p) p"

definition dirname :: "string \<Rightarrow> string" where
  "dirname p =
     (let head = take (rfind_sep p) p in
      if head \<noteq> [] \<and> head \<noteq> replicate (length head) (CHR ''/'')
      then rev (dropWhile (\<lambda>c. c = CHR ''/'') (rev head))
      else head)"

fun split :: "char \<Rightarrow> string \<Rightarrow> string list" where
  "split sep [] = [[]]"
| "split sep (c # cs) =
     (if c = sep then [] # split sep cs
      else (case split sep cs of
              [] \<Rightarrow> [[c]]
            | w # ws \<Rightarrow> (c # w) # ws))"

text \<open>\<open>os.path.basename(file).split('.')[0]\<close>; the list \<open>split\<close> returns is never empty.\<close>

definition lump_name :: "string \<Rightarrow> string" where
  "lump_name f = hd (split (CHR ''.'') (basename f))"


subsection \<open>MIPTEX (lines 173-225)\<close>

text \<open>Lines 174-177: the image that is scanned, resized and stored, and its RGB copy.\<close>

definition load_miptex :: "lib \<Rightarrow> args \<Rightarrow> nat list \<Rightarrow> string \<Rightarrow> exc + image \<times> image" where
  "load_miptex env a palette_image f =
     (case Image_open env f of
        Inl e \<Rightarrow> Inl e
      | Inr img \<Rightarrow>
          (case convert_RGB env img of
             Inl e \<Rightarrow> Inl e
           | Inr img_rgb \<Rightarrow>
               if mode img \<noteq> ''P'' \<or> \<not> raw_color_mode a
               then (case quantize env palette_image img_rgb of
                       Inl e \<Rightarrow> Inl e
                     | Inr q \<Rightarrow> Inr (q, img_rgb))
               else Inr (img, img_rgb)))"

text \<open>Lines 199 and 204: \<open>(img.width // pow(2, i), img.height // pow(2, i))\<close>.\<close>

definition mip_size :: "image \<Rightarrow> nat \<Rightarrow> nat \<times> nat" where
  "mip_size img i = (width img div 2 ^ i, height img div 2 ^ i)"

text \<open>Lines 193-205: \<open>resized_image\<close> of iteration i > 0.\<close>

definition resized_image ::
  "lib \<Rightarrow> nat list \<Rightarrow> nat list \<Rightarrow> image \<Rightarrow> image \<Rightarrow> bool option \<Rightarrow> bool \<Rightarrow> nat \<Rightarrow> exc + image" where
  "resized_image env palette_image palette_image_nofb img img_rgb has_fb smooth i =
     (if smooth
      then (let target_palette = (if truthy has_fb then palette_image else palette_image_nofb) in
            case resize env img_rgb (mip_size img i) of
              Inl e \<Rightarrow> Inl e
            | Inr r \<Rightarrow> quantize env target_palette r)
      else resize env img (mip_size img i))"

text \<open>The image whose bytes make level i: \<open>img\<close> itself for i = 0.\<close>

definition mip_level ::
  "lib \<Rightarrow> nat list \<Rightarrow> nat list \<Rightarrow> image \<Rightarrow> image \<Rightarrow> bool option \<Rightarrow> bool \<Rightarrow> nat \<Rightarrow> exc + image" where
  "mip_level env palette_image palette_image_nofb img img_rgb has_fb smooth i =
     (if i > 0
      then resized_image env palette_image palette_image_nofb img img_rgb has_fb smooth i
      else Inr img)"

text \<open>The level images of one texture: \<open>has_fb\<close> and \<open>smooth_scaling\<close> as lines 178 and 190 set them.\<close>

definition miptex_level ::
  "lib \<Rightarrow> args \<Rightarrow> nat list \<Rightarrow> nat list \<Rightarrow> image \<Rightarrow> image \<Rightarrow> nat \<Rightarrow> exc + image" where
  "miptex_level env a palette_image palette_image_nofb img img_rgb i =
     mip_level env palette_image palette_image_nofb img img_rgb (has_fullbright img)
       (smooth_scaling a (has_fullbright img)) i"

text \<open>
  The loop of lines 191-211 over the levels given, \<open>level i\<close> being the image of
  iteration i. \<open>struct.unpack\<close> with format \<open>B\<close> returns the bytes as they are.
\<close>

fun build_mips :: "(nat \<Rightarrow> exc + image) \<Rightarrow> nat list \<Rightarrow> miptexture \<Rightarrow> exc + miptexture" where
  "build_mips level [] mip = Inr mip"
| "build_mips level (i # is) mip =
     (case level i of
        Inl e \<Rightarrow> Inl e
      | Inr im \<Rightarrow>
          (let data = tobytes im;
               mip1 = mip\<lparr>mip_pixels := mip_pixels mip @ data\<rparr>;
               mip2 = (if i < 3
                       then mip1\<lparr>mip_offsets := mip_offsets mip1 @ [last (mip_offsets mip1) + length data]\<rparr>
                       else mip1)
           in build_mips level is mip2))"

text \<open>Lines 178-221, from the loaded image to the texture and its directory entry.\<close>

definition encode_miptex ::
  "lib \<Rightarrow> args \<Rightarrow> nat list \<Rightarrow> nat list \<Rightarrow> string \<Rightarrow> image \<Rightarrow> image \<Rightarrow> exc + wadinfo \<times> miptexture" where
  "encode_miptex env a palette_image palette_image_nofb f img img_rgb =
     (let has_fb = has_fullbright img;
          name = lump_name f;
          mip = \<lparr>mip_name = name, mip_width = width img, mip_height = height img,
                 mip_offsets = [40], mip_pixels = []\<rparr>;
          smooth = smooth_scaling a has_fb
      in case build_mips (mip_level env palette_image palette_image_nofb img img_rgb has_fb smooth)
                [0..<4] mip of
           Inl e \<Rightarrow> Inl e
         | Inr mip' \<Rightarrow>
             Inr (\<lparr>info_name = name, file_size = 40 + length (mip_pixels mip'),
                   disk_size = 40 + length (mip_pixels mip'), compression = NONE,
                   info_type = MIPTEX\<rparr>, mip'))"


subsection \<open>QPIC (lines 145-170)\<close>


subsection \<open>The loop over the inputs and the exit (lines 122-230)\<close>







subsection \<open>Opening the archive (lines 114-122)\<close>

text \<open>
  The file system as far as these lines look at it: a path is absent, a directory, or a
  regular file holding the lumps of an archive. \<open>os.makedirs\<close> with \<open>exist_ok=True\<close>
  makes the directory and every ancestor that is missing, leaves what exists as it is,
  and fails when one of them is a regular file. \<open>WadFile\<close> with mode \<open>w\<close> starts an empty
  archive, with mode \<open>a\<close> it loads the directory of the existing one.
\<close>

datatype node = Dir | File "(wadinfo \<times> nat list) list"

type_synonym filesystem = "string \<Rightarrow> node option"

definition isfile :: "filesystem \<Rightarrow> string \<Rightarrow> bool" where
  "isfile fs p = (case fs p of Some (File c) \<Rightarrow> True | Some Dir \<Rightarrow> False | None \<Rightarrow> False)"

text \<open>The ancestors of a path: what stands before each of its separators, the root left out.\<close>

definition path_prefixes :: "string \<Rightarrow> string list" where
  "path_prefixes p =
     filter (\<lambda>q. q \<noteq> [] \<and> q \<noteq> replicate (length q) (CHR ''/''))
       (map (\<lambda>i. take i p) (filter (\<lambda>i. p ! i = CHR ''/'') [0..<length p]))"

fun mkdirs :: "string list \<Rightarrow> filesystem \<Rightarrow> exc + filesystem" where
  "mkdirs [] fs = Inr fs"
| "mkdirs (q # qs) fs =
     (case fs q of
        Some (File c) \<Rightarrow> Inl (PyException ''FileExistsError'')
      | Some Dir \<Rightarrow> mkdirs qs fs
      | None \<Rightarrow> mkdirs qs (fs(q \<mapsto> Dir)))"

definition makedirs :: "string \<Rightarrow> filesystem \<Rightarrow> exc + filesystem" where
  "makedirs d fs = mkdirs (path_prefixes d @ [d]) fs"

definition WadFile :: "filesystem \<Rightarrow> string \<Rightarrow> string \<Rightarrow> exc + wadfile" where
  "WadFile fs p filemode =
     (if filemode = ''w''
      then (case fs p of
              Some Dir \<Rightarrow> Inl (PyException ''IsADirectoryError'')
            | _ \<Rightarrow> Inr \<lparr>entries = [], directory = [], closed = False\<rparr>)
      else (case fs p of
              Some (File c) \<Rightarrow> Inr \<lparr>entries = c, directory = map fst c, closed = False\<rparr>
            | _ \<Rightarrow> Inl (PyException ''FileNotFoundError'')))"

text \<open>Line 115: \<open>os.path.dirname(args.file) or '.'\<close>; the empty string is falsy.\<close>

definition archive_dir :: "args \<Rightarrow> string" where
  "archive_dir a = (if dirname (arg_file a) = [] then ''.'' else dirname (arg_file a))"

text \<open>Lines 116-122, up to the archive the \<open>with\<close> statement binds.\<close>

definition open_archive :: "args \<Rightarrow> filesystem \<Rightarrow> exc + filesystem \<times> string \<times> wadfile" where
  "open_archive a fs =
     (let dir = archive_dir a in
      case makedirs dir fs of
        Inl e \<Rightarrow> Inl e
      | Inr fs1 \<Rightarrow>
          (let filemode = (if \<not> isfile fs1 (arg_file a) then ''w'' else ''a'') in
           case WadFile fs1 (arg_file a) filemode of
             Inl e \<Rightarrow> Inl e
           | Inr w \<Rightarrow> Inr (fs1, filemode, w)))"

subsection \<open>What is assumed of Pillow\<close>




definition quantize_gives_P :: "lib \<Rightarrow> bool" where
  "quantize_gives_P env = (\<forall>pal img q. quantize env pal img = Inr q \<longrightarrow> mode q = ''P'')"

definition resize_P_nearest :: "lib \<Rightarrow> bool" where
  "resize_P_nearest env =
     (\<forall>img sz r. mode img = ''P'' \<longrightarrow> resize env img sz = Inr r \<longrightarrow>
        set (tobytes r) \<subseteq> set (tobytes img))"

definition quantize_first_of_colour :: "lib \<Rightarrow> bool" where
  "quantize_first_of_colour env =
     (\<forall>pal img q. quantize env pal img = Inr q \<longrightarrow>
        (\<forall>p \<in> set (tobytes q). p < 256 \<and> (\<forall>j < p. palette_entry pal j \<noteq> palette_entry pal p)))"

subsection \<open>Concrete inputs\<close>

text \<open>
  A small stand-in for the libraries, on which the definitions can be run: one file
  cannot be opened, one opens as an indexed 8 by 8 image with fullbright pixels, every
  other as a black 8 by 8 RGB image; quantising gives index 0 everywhere, resizing
  repeats the first byte and refuses an empty size, the palette is a grey ramp.
\<close>

definition demo_lib :: lib where
  "demo_lib =
     \<lparr>Image_open = (\<lambda>f. if f = ''missing.png'' then Inl (PyException ''cannot open missing.png'')
                        else if f = ''lava.png''
                        then Inr \<lparr>mode = ''P'', width = 8, height = 8,
                                 tobytes = replicate 32 250 @ replicate 32 7\<rparr>
                        else Inr \<lparr>mode = ''RGB'', width = 8, height = 8, tobytes = replicate 192 0\<rparr>),
      convert_RGB = (\<lambda>img. if mode img = ''RGB'' then Inr img
                        else Inr \<lparr>mode = ''RGB'', width = width img, height = height img,
                                 tobytes = replicate (3 * width img * height img) 0\<rparr>),
      quantize = (\<lambda>pal img. Inr \<lparr>mode = ''P'', width = width img, height = height img,
                                 tobytes = replicate (width img * height img) 0\<rparr>),
      resize = (\<lambda>img sz. case sz of (w, h) \<Rightarrow>
                  (case tobytes img of
                     [] \<Rightarrow> Inl (PyException ''empty image'')
                   | b # bs \<Rightarrow>
                       if w = 0 \<or> h = 0 then Inl (PyException ''height and width must be > 0'')
                       else Inr \<lparr>mode = mode img, width = w, height = h,
                                tobytes = replicate ((if mode img = ''P'' then 1 else 3) * w * h) b\<rparr>)),
      Lmp_write = (\<lambda>q. Inr (replicate 8 0 @ lmp_pixels q)),
      Miptexture_write = (\<lambda>m. Inr (replicate 40 0 @ mip_pixels m)),
      WadFile_write = (\<lambda>f. Inr (\<lparr>info_name = f, file_size = 1, disk_size = 1, compression = NONE,
                                  info_type = LUMP\<rparr>, [0])),
      quake_palette = map (\<lambda>i. (i, i, i)) [0..<256],
      parser_status = 2\<rparr>"

definition args_smart :: args where
  "args_smart =
     \<lparr>arg_file = ''tex/walls.wad'', arg_list = [''wall01.png''], arg_type = MIPTEX,
      raw_color_mode = False, smooth_mip = False, smart_mip = True, quiet = False\<rparr>"

definition args_raw_smart :: args where
  "args_raw_smart =
     \<lparr>arg_file = ''tex/walls.wad'', arg_list = [''lava.png''], arg_type = MIPTEX,
      raw_color_mode = True, smooth_mip = False, smart_mip = True, quiet = False\<rparr>"

definition img_fb :: image where
  "img_fb = \<lparr>mode = ''P'', width = 2, height = 2, tobytes = [0, 10, 250, 3]\<rparr>"

definition img_zero :: image where
  "img_zero = \<lparr>mode = ''P'', width = 1, height = 1, tobytes = [0]\<rparr>"

definition img_dark :: image where
  "img_dark = \<lparr>mode = ''P'', width = 8, height = 8, tobytes = replicate 64 0\<rparr>"



text \<open>A file system with nothing in it, and one that holds an archive of one lump.\<close>

definition fs_new :: filesystem where
  "fs_new = (\<lambda>p. None)"

definition fs_old :: filesystem where
  "fs_old = (\<lambda>p. if p = ''tex'' then Some Dir
                   else if p = ''tex/walls.wad''
                   then Some (File [(\<lparr>info_name = ''floor'', file_size = 1, disk_size = 1,
                                       compression = NONE, info_type = LUMP\<rparr>, [0])])
                   else None)"



definition img_lava :: image where
  "img_lava = \<lparr>mode = ''P'', width = 8, height = 8, tobytes = replicate 32 250 @ replicate 32 7\<rparr>"

definition rgb_lava :: image where
  "rgb_lava = \<lparr>mode = ''RGB'', width = 8, height = 8, tobytes = replicate 192 0\<rparr>"

definition rgb_dark :: image where
  "rgb_dark = \<lparr>mode = ''RGB'', width = 8, height = 8, tobytes = replicate 192 0\<rparr>"

section \<open>Properties\<close>

subsection \<open>The fullbright scan\<close>

lemma has_fullbright_row_Some:
  "has_fullbright_row img y xs = Some r \<Longrightarrow> r"
  by (induction xs) (auto split: if_splits)

lemma has_fullbright_row_iff:
  "(has_fullbright_row img y xs = Some True) = (\<exists>x \<in> set xs. getpixel img (x, y) > 223)"
  by (induction xs) auto

lemma has_fullbright_row_None:
  "(has_fullbright_row img y xs = None) = (\<forall>x \<in> set xs. \<not> getpixel img (x, y) > 223)"
  by (induction xs) auto

lemma has_fullbright_rows_iff:
  "(has_fullbright_rows img ys = Some True) =
     (\<exists>y \<in> set ys. \<exists>x < width img. getpixel img (x, y) > 223)"
proof (induction ys)
  case Nil
  show ?case by simp
next
  case (Cons y ys)
  show ?case
  proof (cases "has_fullbright_row img y [0..<width img]")
    case None
    then have "\<not> (\<exists>x < width img. getpixel img (x, y) > 223)"
      by (auto simp: has_fullbright_row_None)
    with None Cons show ?thesis by auto
  next
    case (Some r)
    then have "r" by (rule has_fullbright_row_Some)
    with Some have "\<exists>x < width img. getpixel img (x, y) > 223"
      by (auto simp: has_fullbright_row_iff)
    with Some \<open>r\<close> show ?thesis by auto
  qed
qed

lemma has_fullbright_rows_cases:
  "has_fullbright_rows img ys = Some True \<or> has_fullbright_rows img ys = None"
proof (induction ys)
  case Nil
  show ?case by simp
next
  case (Cons y ys)
  then show ?case
    by (auto split: option.splits dest: has_fullbright_row_Some)
qed

lemma has_fullbright_iff:
  "(has_fullbright img = Some True) = fullbright_pixel img"
  by (auto simp: has_fullbright_def fullbright_pixel_def has_fullbright_rows_iff)

lemma has_fullbright_cases:
  "has_fullbright img = Some True \<or> has_fullbright img = None"
  by (simp add: has_fullbright_def has_fullbright_rows_cases)

lemma truthy_has_fullbright:
  "truthy (has_fullbright img) = fullbright_pixel img"
  using has_fullbright_cases [of img] has_fullbright_iff [of img]
  by (auto simp: truthy_def)

text \<open>
  The scan reads the pixels in raster order and stops with the first one above 223: the
  reads are the raster up to and including that pixel, or the whole raster.
\<close>

lemma upto_first_Nil: "upto_first P [] = []"
  by (simp add: upto_first_def)

lemma upto_first_Cons:
  "upto_first P (x # xs) = (if P x then [x] else x # upto_first P xs)"
  by (simp add: upto_first_def)

lemma upto_first_append:
  "upto_first P (xs @ ys) = (if \<exists>x \<in> set xs. P x then upto_first P xs else xs @ upto_first P ys)"
  by (induction xs) (auto simp: upto_first_Cons upto_first_Nil)

lemma upto_first_none: "\<forall>x \<in> set xs. \<not> P x \<Longrightarrow> upto_first P xs = xs"
  by (induction xs) (auto simp: upto_first_Cons upto_first_Nil)

lemma has_fullbright_row_reads_eq:
  "has_fullbright_row_reads img y xs =
     upto_first (\<lambda>xy. getpixel img xy > 223) (map (\<lambda>x. (x, y)) xs)"
  by (induction xs) (auto simp: upto_first_Cons upto_first_Nil)

lemma has_fullbright_rows_reads_eq:
  "has_fullbright_rows_reads img ys =
     upto_first (\<lambda>xy. getpixel img xy > 223)
       (concat (map (\<lambda>y. map (\<lambda>x. (x, y)) [0..<width img]) ys))"
proof (induction ys)
  case Nil
  show ?case by (simp add: upto_first_Nil)
next
  case (Cons y ys)
  show ?case
  proof (cases "has_fullbright_row img y [0..<width img]")
    case None
    then have no: "\<forall>xy \<in> set (map (\<lambda>x. (x, y)) [0..<width img]). \<not> getpixel img xy > 223"
      by (auto simp: has_fullbright_row_None)
    then have "upto_first (\<lambda>xy. getpixel img xy > 223) (map (\<lambda>x. (x, y)) [0..<width img]) =
        map (\<lambda>x. (x, y)) [0..<width img]"
      by (rule upto_first_none)
    with no None Cons show ?thesis
      by (simp add: upto_first_append has_fullbright_row_reads_eq)
  next
    case (Some r)
    then have "r" by (rule has_fullbright_row_Some)
    with Some have "\<exists>xy \<in> set (map (\<lambda>x. (x, y)) [0..<width img]). getpixel img xy > 223"
      by (auto simp: has_fullbright_row_iff)
    with Some show ?thesis
      by (simp add: upto_first_append has_fullbright_row_reads_eq)
  qed
qed

lemma has_fullbright_short_circuit:
  "has_fullbright_reads img = upto_first (\<lambda>xy. getpixel img xy > 223) (raster img)"
  by (simp add: has_fullbright_reads_def raster_def has_fullbright_rows_reads_eq)

lemma has_fullbright_img_fb: "has_fullbright img_fb = Some True"
  by (simp add: has_fullbright_def img_fb_def getpixel_def upt_rec)

lemma has_fullbright_img_zero: "has_fullbright img_zero = None"
  by (simp add: has_fullbright_def img_zero_def getpixel_def)

text \<open>
  Claim C3. \<open>has_fullbright\<close> returns true exactly when some pixel is above 223 and stops
  at the first such pixel (\<open>has_fullbright_iff\<close>, \<open>has_fullbright_short_circuit\<close>). The
  claim adds that it returns false for an image whose indices are all zero. The function
  has no \<open>return False\<close>: on the 1 by 1 image with index 0 the loops run out and the value
  is \<open>None\<close>, which is not \<open>False\<close>.
\<close>

theorem has_fullbright_all_zero_is_None:
  "has_fullbright img_zero = None \<and> has_fullbright img_zero \<noteq> Some False"
  by (simp add: has_fullbright_def img_zero_def getpixel_def)

subsection \<open>The scaling mode\<close>

text \<open>
  Claim C1. Smooth scaling is used exactly when \<open>smooth_mip\<close> is set, or \<open>smart_mip\<close> is set
  and the image that was scanned has no pixel above 223; then a level above 0 is the RGB
  copy resized and quantised, and otherwise it is the indexed image resized, which for
  a mode \<open>P\<close> image is nearest-neighbour.
\<close>

theorem scaling_mode:
  "smooth_scaling a (has_fullbright img) = (smooth_mip a \<or> (smart_mip a \<and> \<not> fullbright_pixel img))
   \<and> resized_image env palette_image palette_image_nofb img img_rgb (has_fullbright img)
        (smooth_scaling a (has_fullbright img)) i =
       (if smooth_mip a \<or> (smart_mip a \<and> \<not> fullbright_pixel img)
        then (case resize env img_rgb (mip_size img i) of
                Inl e \<Rightarrow> Inl e
              | Inr r \<Rightarrow> quantize env (if fullbright_pixel img then palette_image else palette_image_nofb) r)
        else resize env img (mip_size img i))"
  by (simp add: smooth_scaling_def resized_image_def truthy_has_fullbright)

theorem scaling_mode_witness:
  "fullbright_pixel img_fb \<and> \<not> smooth_scaling args_smart (has_fullbright img_fb)
   \<and> smooth_scaling args_smart (has_fullbright img_zero)"
  using scaling_mode [of args_smart img_fb] scaling_mode [of args_smart img_zero]
    has_fullbright_img_fb has_fullbright_img_zero
  by (simp add: smooth_scaling_def truthy_def args_smart_def)

subsection \<open>The loop over the four levels\<close>

lemma range4: "[0..<4] = [0, 1, 2, 3]"
  by (simp add: upt_rec)

lemma build_mips_4:
  "(build_mips level [0..<4] mip = Inr mip') =
     (\<exists>l0 l1 l2 l3. level 0 = Inr l0 \<and> level 1 = Inr l1 \<and> level 2 = Inr l2 \<and> level 3 = Inr l3 \<and>
        mip' = mip\<lparr>mip_pixels := mip_pixels mip @ tobytes l0 @ tobytes l1 @ tobytes l2 @ tobytes l3,
                   mip_offsets := mip_offsets mip @
                     [last (mip_offsets mip) + length (tobytes l0),
                      last (mip_offsets mip) + length (tobytes l0) + length (tobytes l1),
                      last (mip_offsets mip) + length (tobytes l0) + length (tobytes l1) + length (tobytes l2)]\<rparr>)"
  by (auto simp: range4 Let_def split: sum.splits)

lemma miptex_level_0: "miptex_level env a pi pn img img_rgb 0 = Inr img"
  by (simp add: miptex_level_def mip_level_def)

text \<open>What a texture that was encoded looks like, in terms of its level images.\<close>

lemma encode_miptex_levels:
  assumes "encode_miptex env a pi pn f img img_rgb = Inr (info, mip)"
  shows "\<exists>l1 l2 l3.
     miptex_level env a pi pn img img_rgb 1 = Inr l1 \<and>
     miptex_level env a pi pn img img_rgb 2 = Inr l2 \<and>
     miptex_level env a pi pn img img_rgb 3 = Inr l3 \<and>
     mip = \<lparr>mip_name = lump_name f, mip_width = width img, mip_height = height img,
            mip_offsets = [40, 40 + length (tobytes img),
                           40 + length (tobytes img) + length (tobytes l1),
                           40 + length (tobytes img) + length (tobytes l1) + length (tobytes l2)],
            mip_pixels = tobytes img @ tobytes l1 @ tobytes l2 @ tobytes l3\<rparr> \<and>
     info = \<lparr>info_name = lump_name f, file_size = 40 + length (mip_pixels mip),
             disk_size = 40 + length (mip_pixels mip), compression = NONE, info_type = MIPTEX\<rparr>"
proof -
  let ?level = "miptex_level env a pi pn img img_rgb"
  let ?mip0 = "\<lparr>mip_name = lump_name f, mip_width = width img, mip_height = height img,
                 mip_offsets = [40], mip_pixels = []\<rparr>"
  from assms have b: "build_mips ?level [0..<4] ?mip0 = Inr mip"
    and i: "info = \<lparr>info_name = lump_name f, file_size = 40 + length (mip_pixels mip),
             disk_size = 40 + length (mip_pixels mip), compression = NONE, info_type = MIPTEX\<rparr>"
    unfolding miptex_level_def
    by (auto simp: encode_miptex_def Let_def split: sum.splits)
  have l0: "?level 0 = Inr img" by (rule miptex_level_0)
  from b l0 i show ?thesis
    unfolding build_mips_4 by auto
qed

text \<open>The texture is encoded whenever the three resized levels can be made.\<close>

lemma encode_miptex_total:
  assumes "miptex_level env a pi pn img img_rgb 1 = Inr l1"
    and "miptex_level env a pi pn img img_rgb 2 = Inr l2"
    and "miptex_level env a pi pn img img_rgb 3 = Inr l3"
  shows "\<exists>info mip. encode_miptex env a pi pn f img img_rgb = Inr (info, mip)"
proof -
  let ?level = "miptex_level env a pi pn img img_rgb"
  have l0: "?level 0 = Inr img" by (rule miptex_level_0)
  from l0 assms have "\<exists>mip'. build_mips ?level [0..<4]
      \<lparr>mip_name = lump_name f, mip_width = width img, mip_height = height img,
        mip_offsets = [40], mip_pixels = []\<rparr> = Inr mip'"
    unfolding build_mips_4 by blast
  then show ?thesis
    unfolding miptex_level_def by (auto simp: encode_miptex_def Let_def)
qed

lemma demo_encode:
  "encode_miptex demo_lib args_smart [] [] ''wall01.png'' img_dark rgb_dark =
     Inr (\<lparr>info_name = ''wall01'', file_size = 125, disk_size = 125, compression = NONE,
            info_type = MIPTEX\<rparr>,
          \<lparr>mip_name = ''wall01'', mip_width = 8, mip_height = 8,
            mip_offsets = [40, 104, 120, 124], mip_pixels = replicate 85 0\<rparr>)"
  by code_simp

text \<open>
  Claim C5. In an encoded texture the first offset is 40, the size of the fixed fields
  (16 bytes of name, width, height, four offsets of 4 bytes each); each later offset is
  the one before plus the number of bytes of the level before; the entry's file size and
  disk size are both 40 plus the bytes of the four levels.
\<close>

theorem miptex_offsets_and_sizes:
  assumes "encode_miptex env a pi pn f img img_rgb = Inr (info, mip)"
  shows "\<exists>l0 l1 l2 l3.
     miptex_level env a pi pn img img_rgb 0 = Inr l0 \<and>
     miptex_level env a pi pn img img_rgb 1 = Inr l1 \<and>
     miptex_level env a pi pn img img_rgb 2 = Inr l2 \<and>
     miptex_level env a pi pn img img_rgb 3 = Inr l3 \<and>
     mip_pixels mip = tobytes l0 @ tobytes l1 @ tobytes l2 @ tobytes l3 \<and>
     length (mip_offsets mip) = 4 \<and>
     mip_offsets mip ! 0 = 40 \<and> (40::nat) = 16 + 4 + 4 + 4 * 4 \<and>
     mip_offsets mip ! 1 = mip_offsets mip ! 0 + length (tobytes l0) \<and>
     mip_offsets mip ! 2 = mip_offsets mip ! 1 + length (tobytes l1) \<and>
     mip_offsets mip ! 3 = mip_offsets mip ! 2 + length (tobytes l2) \<and>
     file_size info =
       40 + (length (tobytes l0) + length (tobytes l1) + length (tobytes l2) + length (tobytes l3)) \<and>
     disk_size info =
       40 + (length (tobytes l0) + length (tobytes l1) + length (tobytes l2) + length (tobytes l3))"
proof -
  from encode_miptex_levels [OF assms] obtain l1 l2 l3 where
    l: "miptex_level env a pi pn img img_rgb 1 = Inr l1"
       "miptex_level env a pi pn img img_rgb 2 = Inr l2"
       "miptex_level env a pi pn img img_rgb 3 = Inr l3"
    and m: "mip = \<lparr>mip_name = lump_name f, mip_width = width img, mip_height = height img,
            mip_offsets = [40, 40 + length (tobytes img),
                           40 + length (tobytes img) + length (tobytes l1),
                           40 + length (tobytes img) + length (tobytes l1) + length (tobytes l2)],
            mip_pixels = tobytes img @ tobytes l1 @ tobytes l2 @ tobytes l3\<rparr>"
    and i: "info = \<lparr>info_name = lump_name f, file_size = 40 + length (mip_pixels mip),
             disk_size = 40 + length (mip_pixels mip), compression = NONE, info_type = MIPTEX\<rparr>"
    by blast
  show ?thesis
    apply (rule exI [of _ img], rule exI [of _ l1], rule exI [of _ l2], rule exI [of _ l3])
    using l m i by (simp add: miptex_level_0)
qed

theorem miptex_offsets_and_sizes_witness:
  "\<exists>info mip. encode_miptex demo_lib args_smart [] [] ''wall01.png'' img_dark rgb_dark = Inr (info, mip) \<and>
     mip_offsets mip = [40, 40 + 64, 40 + 64 + 16, 40 + 64 + 16 + 4] \<and>
     file_size info = 40 + (64 + 16 + 4 + 1) \<and> disk_size info = 40 + (64 + 16 + 4 + 1)"
  using miptex_offsets_and_sizes [OF demo_encode] demo_encode
  by simp

subsection \<open>The sizes of the levels\<close>





subsection \<open>The two palettes\<close>

lemma palette_flat_foldl:
  "foldl (\<lambda>palette p. case p of (r, g, b) \<Rightarrow> palette @ [r, g, b]) acc qp =
     acc @ concat (map (\<lambda>p. case p of (r, g, b) \<Rightarrow> [r, g, b]) qp)"
  by (induction qp arbitrary: acc) (auto split: prod.splits)

lemma palette_flat_concat:
  "palette_flat qp = concat (map (\<lambda>p. case p of (r, g, b) \<Rightarrow> [r, g, b]) qp)"
  by (simp add: palette_flat_def palette_flat_foldl)

lemma palette_flat_Cons: "palette_flat ((r, g, b) # qp) = r # g # b # palette_flat qp"
  by (simp add: palette_flat_concat)

lemma length_palette_flat: "length (palette_flat qp) = 3 * length qp"
  by (induction qp) (auto simp: palette_flat_concat split: prod.splits)

lemma palette_entry_flat:
  "i < length qp \<Longrightarrow> palette_entry (palette_flat qp) i = qp ! i"
proof (induction qp arbitrary: i)
  case Nil
  then show ?case by simp
next
  case (Cons p ps)
  obtain r g b where p: "p = (r, g, b)" by (cases p) auto
  show ?case
  proof (cases i)
    case 0
    then show ?thesis by (simp add: p palette_flat_Cons palette_entry_def)
  next
    case (Suc j)
    with Cons.prems have "j < length ps" by simp
    then have "palette_entry (palette_flat ps) j = ps ! j" by (rule Cons.IH)
    then show ?thesis
      by (simp add: Suc p palette_flat_Cons palette_entry_def)
  qed
qed

lemma palette_nofb_low:
  assumes "length palette = 768" and "i < 224"
  shows "palette_entry (palette_nofb palette) i = palette_entry palette i"
  using assms by (simp add: palette_nofb_def palette_entry_def nth_append)

lemma palette_nofb_high:
  assumes "length palette = 768" and "224 \<le> i" and "i < 256"
  shows "palette_entry (palette_nofb palette) i = (0, 0, 0)"
  using assms by (simp add: palette_nofb_def palette_entry_def nth_append)

lemma length_palette_nofb:
  "96 \<le> length palette \<Longrightarrow> length (palette_nofb palette) = length palette"
  by (simp add: palette_nofb_def)

lemma demo_palette: "length (quake_palette demo_lib) = 256" "quake_palette demo_lib ! 0 = (0, 0, 0)"
  by (simp_all add: demo_lib_def)

text \<open>
  Claim C7. \<open>quake.palette\<close> is a constant of vgio; it is taken with the two facts the
  spec states of it, 256 entries and black at index 0. Then the palette without
  fullbright has the same 256 entries as the full one at 0 to 223, and at 224 to 255 each
  entry is (0, 0, 0), the colour of index 0.
\<close>

theorem palette_nofb_entries:
  assumes "length (quake_palette env) = 256" and "quake_palette env ! 0 = (0, 0, 0)"
  shows "length (palette_nofb (palette_flat (quake_palette env))) = 3 * 256 \<and>
     (\<forall>i < 224. palette_entry (palette_nofb (palette_flat (quake_palette env))) i =
                 palette_entry (palette_flat (quake_palette env)) i) \<and>
     (\<forall>i. 224 \<le> i \<and> i < 256 \<longrightarrow>
        palette_entry (palette_nofb (palette_flat (quake_palette env))) i =
          palette_entry (palette_flat (quake_palette env)) 0 \<and>
        palette_entry (palette_nofb (palette_flat (quake_palette env))) i = (0, 0, 0)) \<and>
     (\<forall>i < 256. palette_entry (palette_flat (quake_palette env)) i = quake_palette env ! i)"
proof -
  have len: "length (palette_flat (quake_palette env)) = 768"
    using assms(1) by (simp add: length_palette_flat)
  have e0: "palette_entry (palette_flat (quake_palette env)) 0 = (0, 0, 0)"
    using assms by (simp add: palette_entry_flat)
  show ?thesis
    using len e0 assms(1)
    by (simp add: palette_nofb_low palette_nofb_high length_palette_nofb palette_entry_flat)
qed

theorem palette_nofb_entries_witness:
  "length (quake_palette demo_lib) = 256 \<and> quake_palette demo_lib ! 0 = (0, 0, 0) \<and>
   palette_entry (palette_nofb (palette_flat (quake_palette demo_lib))) 223 = (223, 223, 223) \<and>
   palette_entry (palette_flat (quake_palette demo_lib)) 224 = (224, 224, 224) \<and>
   palette_entry (palette_nofb (palette_flat (quake_palette demo_lib))) 224 = (0, 0, 0) \<and>
   palette_entry (palette_nofb (palette_flat (quake_palette demo_lib))) 255 = (0, 0, 0)"
proof -
  have q: "quake_palette demo_lib ! 223 = (223, 223, 223)" "quake_palette demo_lib ! 224 = (224, 224, 224)"
    by (simp_all add: demo_lib_def)
  show ?thesis
    using palette_nofb_entries [OF demo_palette] demo_palette q
    by simp
qed

subsection \<open>Levels made by smooth and by nearest-neighbour scaling\<close>

lemma demo_resize_P_nearest: "resize_P_nearest demo_lib"
  by (auto simp: resize_P_nearest_def demo_lib_def split: list.splits if_splits)

lemma demo_quantize_first_of_colour: "quantize_first_of_colour demo_lib"
  by (auto simp: quantize_first_of_colour_def demo_lib_def)

lemma demo_quantize_gives_P: "quantize_gives_P demo_lib"
  by (auto simp: quantize_gives_P_def demo_lib_def)

text \<open>The image that is scanned and resized is of mode \<open>P\<close>: it was so when opened, or it was quantised.\<close>

lemma load_miptex_mode:
  assumes "quantize_gives_P env" and "load_miptex env a pi f = Inr (img, img_rgb)"
  shows "mode img = ''P''"
  using assms unfolding quantize_gives_P_def load_miptex_def
  by (auto split: sum.splits if_splits)

lemma miptex_level_smooth:
  assumes "smooth_scaling a (has_fullbright img)" and "0 < i"
  shows "miptex_level env a pi pn img img_rgb i =
     (case resize env img_rgb (mip_size img i) of
        Inl e \<Rightarrow> Inl e
      | Inr r \<Rightarrow> quantize env (if fullbright_pixel img then pi else pn) r)"
  using assms
  by (simp add: miptex_level_def mip_level_def resized_image_def truthy_has_fullbright)

lemma miptex_level_nearest:
  assumes "\<not> smooth_scaling a (has_fullbright img)" and "0 < i"
  shows "miptex_level env a pi pn img img_rgb i = resize env img (mip_size img i)"
  using assms
  by (simp add: miptex_level_def mip_level_def resized_image_def)

text \<open>
  In the palette without fullbright the entries from 224 on repeat the colour of entry 0,
  so an index that is the first of its colour is below 224.
\<close>

lemma first_of_colour_nofb:
  assumes len: "length palette = 768" and black: "palette_entry palette 0 = (0, 0, 0)"
    and p: "p < 256"
    and first: "\<forall>j < p. palette_entry (palette_nofb palette) j \<noteq> palette_entry (palette_nofb palette) p"
  shows "p \<le> 223"
proof (rule ccontr)
  assume "\<not> p \<le> 223"
  then have hi: "224 \<le> p" by simp
  have "palette_entry (palette_nofb palette) p = (0, 0, 0)"
    using len hi p by (rule palette_nofb_high)
  moreover have "palette_entry (palette_nofb palette) 0 = (0, 0, 0)"
    using palette_nofb_low [OF len, of 0] black by simp
  moreover have "0 < p" using hi by simp
  ultimately show False using first by auto
qed

lemma demo_dark_smooth: "smooth_scaling args_smart (has_fullbright img_dark)"
  by code_simp

lemma demo_dark_level:
  "miptex_level demo_lib args_smart pi pn img_dark rgb_dark 1 =
   Inr \<lparr>mode = ''P'', width = 4, height = 4, tobytes = replicate 16 0\<rparr>"
proof -
  have "resize demo_lib rgb_dark (mip_size img_dark 1) =
      Inr \<lparr>mode = ''RGB'', width = 4, height = 4, tobytes = replicate 48 0\<rparr>"
    by code_simp
  then show ?thesis
    by (simp add: miptex_level_smooth [OF demo_dark_smooth] demo_lib_def)
qed

lemma demo_dark_no_fullbright: "\<not> fullbright_pixel img_dark"
proof -
  have "has_fullbright img_dark = None" by code_simp
  then show ?thesis
    using truthy_has_fullbright [of img_dark] by (simp add: truthy_def)
qed

text \<open>
  Claim C2. When the indexed image has no pixel above 223 and smooth scaling is used, a
  level above 0 is the RGB copy resized to the level's size and quantised against the
  palette without fullbright, and none of its bytes is above 223. The last part rests
  on the palette (256 entries, index 0 black) and on Pillow's quantiser returning the
  first index of the colour it picks.
\<close>

theorem smooth_levels_without_fullbright:
  assumes "quantize_first_of_colour env"
    and "length (quake_palette env) = 256" and "quake_palette env ! 0 = (0, 0, 0)"
    and "\<not> fullbright_pixel img"
    and "smooth_scaling a (has_fullbright img)"
    and "0 < i"
    and "miptex_level env a (palette_flat (quake_palette env))
           (palette_nofb (palette_flat (quake_palette env))) img img_rgb i = Inr l"
  shows "(\<exists>r. resize env img_rgb (mip_size img i) = Inr r \<and>
              quantize env (palette_nofb (palette_flat (quake_palette env))) r = Inr l) \<and>
         (\<forall>p \<in> set (tobytes l). p \<le> 223)"
proof -
  let ?pal = "palette_flat (quake_palette env)"
  from assms(4-7) obtain r where
    r: "resize env img_rgb (mip_size img i) = Inr r" and
    q: "quantize env (palette_nofb ?pal) r = Inr l"
    by (auto simp: miptex_level_smooth split: sum.splits)
  have len: "length ?pal = 768"
    using assms(2) by (simp add: length_palette_flat)
  have black: "palette_entry ?pal 0 = (0, 0, 0)"
    using assms(2,3) by (simp add: palette_entry_flat)
  have "p \<le> 223" if "p \<in> set (tobytes l)" for p
  proof -
    from assms(1) q that have "p < 256"
      and "\<forall>j < p. palette_entry (palette_nofb ?pal) j \<noteq> palette_entry (palette_nofb ?pal) p"
      unfolding quantize_first_of_colour_def by blast+
    with len black show ?thesis by (rule first_of_colour_nofb)
  qed
  with r q show ?thesis by blast
qed

theorem smooth_levels_without_fullbright_witness:
  "\<exists>r l. miptex_level demo_lib args_smart (palette_flat (quake_palette demo_lib))
            (palette_nofb (palette_flat (quake_palette demo_lib))) img_dark rgb_dark 1 = Inr l \<and>
          resize demo_lib rgb_dark (mip_size img_dark 1) = Inr r \<and>
          quantize demo_lib (palette_nofb (palette_flat (quake_palette demo_lib))) r = Inr l \<and>
          list_all (\<lambda>p. p \<le> 223) (tobytes l) \<and> length (tobytes l) = 16"
proof -
  have pos: "0 < (1::nat)" by simp
  show ?thesis
    using smooth_levels_without_fullbright [OF demo_quantize_first_of_colour demo_palette
        demo_dark_no_fullbright demo_dark_smooth pos demo_dark_level]
      demo_dark_level
    by (auto simp: list_all_iff)
qed

lemma demo_load_lava:
  "load_miptex demo_lib args_raw_smart [] ''lava.png'' = Inr (img_lava, rgb_lava)"
  by code_simp

lemma demo_lava_nearest: "\<not> smooth_scaling args_raw_smart (has_fullbright img_lava)"
  by code_simp

lemma demo_lava_level:
  "miptex_level demo_lib args_raw_smart [] [] img_lava rgb_lava 2 =
     Inr \<lparr>mode = ''P'', width = 2, height = 2, tobytes = replicate 4 250\<rparr>"
  by code_simp

text \<open>
  Claim C8. When nearest-neighbour scaling is used, a level above 0 is the indexed image
  of level 0 resized, and every byte of it is a byte of level 0. That a resized mode \<open>P\<close>
  image only repeats bytes of its source is Pillow's part.
\<close>

theorem nearest_levels_keep_indices:
  assumes "quantize_gives_P env" and "resize_P_nearest env"
    and "load_miptex env a pi f = Inr (img, img_rgb)"
    and "\<not> smooth_scaling a (has_fullbright img)"
    and "0 < i"
    and "miptex_level env a pi pn img img_rgb i = Inr l"
  shows "resize env img (mip_size img i) = Inr l \<and>
         miptex_level env a pi pn img img_rgb 0 = Inr img \<and>
         set (tobytes l) \<subseteq> set (tobytes img)"
proof -
  have m: "mode img = ''P''" using assms(1,3) by (rule load_miptex_mode)
  have r: "resize env img (mip_size img i) = Inr l"
    using assms(4-6) by (simp add: miptex_level_nearest)
  from assms(2) m r have "set (tobytes l) \<subseteq> set (tobytes img)"
    unfolding resize_P_nearest_def by blast
  with r show ?thesis by (simp add: miptex_level_0)
qed

theorem nearest_levels_keep_indices_witness:
  "\<exists>l. miptex_level demo_lib args_raw_smart [] [] img_lava rgb_lava 2 = Inr l \<and>
        resize demo_lib img_lava (mip_size img_lava 2) = Inr l \<and>
        tobytes l = [250, 250, 250, 250] \<and>
        set (tobytes l) \<subseteq> set (tobytes img_lava)"
proof -
  have pos: "0 < (2::nat)" by simp
  show ?thesis
    using nearest_levels_keep_indices [OF demo_quantize_gives_P demo_resize_P_nearest
        demo_load_lava demo_lava_nearest pos demo_lava_level]
      demo_lava_level
    by (simp add: numeral_eq_Suc)
qed

subsection \<open>Lump names\<close>












subsection \<open>Images smaller than 8 by 8\<close>









subsection \<open>Errors and the exit status\<close>




















subsection \<open>Opening the archive\<close>

lemma mkdirs_Inr:
  assumes "mkdirs qs fs = Inr fs1"
  shows "(\<forall>q \<in> set qs. fs1 q = Some Dir) \<and>
         (\<forall>p. fs1 p = fs p \<or> (fs p = None \<and> fs1 p = Some Dir \<and> p \<in> set qs))"
  using assms
proof (induction qs arbitrary: fs)
  case Nil
  then show ?case by simp
next
  case (Cons q qs)
  show ?case
  proof (cases "fs q")
    case None
    with Cons.prems have "mkdirs qs (fs(q \<mapsto> Dir)) = Inr fs1" by simp
    from Cons.IH [OF this] show ?thesis
      using None by (auto split: if_splits)
  next
    case (Some n)
    show ?thesis
    proof (cases n)
      case Dir
      with Some Cons.prems have "mkdirs qs fs = Inr fs1" by simp
      from Cons.IH [OF this] have
        A: "\<forall>q \<in> set qs. fs1 q = Some Dir" and
        B: "\<forall>p. fs1 p = fs p \<or> (fs p = None \<and> fs1 p = Some Dir \<and> p \<in> set qs)"
        by simp_all
      from B Some Dir have "fs1 q = Some Dir" by (metis option.distinct(1))
      with A B show ?thesis by auto
    next
      case (File c)
      with Some Cons.prems show ?thesis by simp
    qed
  qed
qed

lemma makedirs_Inr:
  assumes "makedirs d fs = Inr fs1"
  shows "fs1 d = Some Dir \<and> (\<forall>p. fs1 p = fs p \<or> (fs p = None \<and> fs1 p = Some Dir))"
  using mkdirs_Inr [OF assms [unfolded makedirs_def]] by auto

lemma makedirs_isfile:
  assumes "makedirs d fs = Inr fs1"
  shows "isfile fs1 p = isfile fs p"
proof -
  from makedirs_Inr [OF assms] have "fs1 p = fs p \<or> (fs p = None \<and> fs1 p = Some Dir)" by blast
  then show ?thesis by (auto simp: isfile_def)
qed

lemma open_archive_Inr:
  assumes "open_archive a fs = Inr (fs1, filemode, w)"
  shows "makedirs (archive_dir a) fs = Inr fs1 \<and>
         filemode = (if \<not> isfile fs1 (arg_file a) then ''w'' else ''a'') \<and>
         WadFile fs1 (arg_file a) filemode = Inr w"
  using assms by (auto simp: open_archive_def Let_def split: sum.splits)

lemma open_archive_flags:
  "open_archive (a\<lparr>arg_list := l, arg_type := t, raw_color_mode := r, smooth_mip := s,
       smart_mip := m, quiet := q\<rparr>) fs = open_archive a fs"
  by (simp add: open_archive_def archive_dir_def Let_def cong: sum.case_cong)

text \<open>
  Claim C10. No flag chooses the mode: an archive that was opened is in mode \<open>a\<close> exactly
  when a regular file stood at its path, and is then the archive in that file; otherwise
  the mode is \<open>w\<close> and the archive is empty. Before that \<open>makedirs\<close> has run on the
  directory of the path, which is a directory afterwards; nothing that existed is
  changed. Opening succeeds whenever \<open>makedirs\<close> does and the path is not a directory.
\<close>

theorem archive_open_mode:
  "(\<forall>fs1 filemode w. open_archive a fs = Inr (fs1, filemode, w) \<longrightarrow>
      (filemode = ''a'') = isfile fs (arg_file a) \<and>
      (filemode = ''w'') = (\<not> isfile fs (arg_file a)) \<and>
      (filemode = ''a'' \<longrightarrow> fs (arg_file a) = Some (File (entries w))) \<and>
      (filemode = ''w'' \<longrightarrow> entries w = []) \<and>
      makedirs (archive_dir a) fs = Inr fs1 \<and>
      WadFile fs1 (arg_file a) filemode = Inr w \<and>
      fs1 (archive_dir a) = Some Dir \<and>
      (\<forall>p. fs1 p = fs p \<or> (fs p = None \<and> fs1 p = Some Dir))) \<and>
   (\<forall>fs1. makedirs (archive_dir a) fs = Inr fs1 \<and> fs1 (arg_file a) \<noteq> Some Dir \<longrightarrow>
      (\<exists>filemode w. open_archive a fs = Inr (fs1, filemode, w))) \<and>
   open_archive (a\<lparr>arg_list := l, arg_type := t, raw_color_mode := r, smooth_mip := s,
       smart_mip := m, quiet := q\<rparr>) fs = open_archive a fs"
proof (intro conjI allI impI)
  show "open_archive (a\<lparr>arg_list := l, arg_type := t, raw_color_mode := r, smooth_mip := s,
       smart_mip := m, quiet := q\<rparr>) fs = open_archive a fs"
    by (rule open_archive_flags)
next
  fix fs1
  assume h: "makedirs (archive_dir a) fs = Inr fs1 \<and> fs1 (arg_file a) \<noteq> Some Dir"
  then show "\<exists>filemode w. open_archive a fs = Inr (fs1, filemode, w)"
    by (auto simp: open_archive_def Let_def WadFile_def isfile_def
        split: option.splits node.splits)
next
  fix fs1 filemode w
  assume "open_archive a fs = Inr (fs1, filemode, w)"
  from open_archive_Inr [OF this] have
    m: "makedirs (archive_dir a) fs = Inr fs1" and
    f: "filemode = (if \<not> isfile fs1 (arg_file a) then ''w'' else ''a'')" and
    o: "WadFile fs1 (arg_file a) filemode = Inr w" by blast+
  note i = makedirs_isfile [OF m, of "arg_file a"]
  note k = makedirs_Inr [OF m]
  show "makedirs (archive_dir a) fs = Inr fs1" by (rule m)
  show "WadFile fs1 (arg_file a) filemode = Inr w" by (rule o)
  from k show "fs1 (archive_dir a) = Some Dir" by simp
  from k show "\<And>p. fs1 p = fs p \<or> (fs p = None \<and> fs1 p = Some Dir)" by simp
  from f i show "(filemode = ''a'') = isfile fs (arg_file a)" by simp
  from f i show "(filemode = ''w'') = (\<not> isfile fs (arg_file a))" by simp
  {
    assume "filemode = ''w''"
    with o show "entries w = []"
      by (auto simp: WadFile_def split: option.splits node.splits)
  }
  {
    assume a: "filemode = ''a''"
    with o have "fs1 (arg_file a) = Some (File (entries w))"
      by (auto simp: WadFile_def split: option.splits node.splits)
    with k show "fs (arg_file a) = Some (File (entries w))"
      by (metis node.distinct(1) option.inject)
  }
qed

lemma demo_archive_dir: "archive_dir args_smart = ''tex''"
  by code_simp

lemma demo_arg_file: "arg_file args_smart = ''tex/walls.wad''"
  by (simp add: args_smart_def)

lemma demo_makedirs_new: "makedirs ''tex'' fs_new = Inr (fs_new(''tex'' \<mapsto> Dir))"
proof -
  have "path_prefixes ''tex'' = []" by code_simp
  then show ?thesis by (simp add: makedirs_def fs_new_def)
qed

lemma demo_makedirs_old: "makedirs ''tex'' fs_old = Inr fs_old"
proof -
  have "path_prefixes ''tex'' = []" by code_simp
  then show ?thesis by (simp add: makedirs_def fs_old_def)
qed

theorem archive_open_mode_witness:
  "(\<exists>fs1 w. open_archive args_smart fs_new = Inr (fs1, ''w'', w) \<and> entries w = [] \<and>
       fs1 ''tex'' = Some Dir \<and> fs_new ''tex'' = None) \<and>
   \<not> isfile fs_new ''tex/walls.wad'' \<and>
   (\<exists>fs1 w. open_archive args_smart fs_old = Inr (fs1, ''a'', w) \<and>
       map info_name (map fst (entries w)) = [''floor'']) \<and>
   isfile fs_old ''tex/walls.wad''"
proof -
  have n: "\<not> isfile fs_new ''tex/walls.wad''" by (simp add: isfile_def fs_new_def)
  have o: "isfile fs_old ''tex/walls.wad''" by (simp add: isfile_def fs_old_def)
  have nn: "fs_new ''tex'' = None" by (simp add: fs_new_def)
  note tn = archive_open_mode [of args_smart fs_new]
  note to = archive_open_mode [of args_smart fs_old]
  have "(fs_new(''tex'' \<mapsto> Dir)) (arg_file args_smart) \<noteq> Some Dir"
    by (simp add: demo_arg_file fs_new_def)
  with tn demo_makedirs_new obtain m1 w1 where
    1: "open_archive args_smart fs_new = Inr (fs_new(''tex'' \<mapsto> Dir), m1, w1)"
    unfolding demo_archive_dir by blast
  from tn 1 n have "m1 = ''w''" unfolding demo_arg_file by blast
  moreover from tn 1 calculation have "entries w1 = []" by blast
  ultimately have A: "\<exists>fs1 w. open_archive args_smart fs_new = Inr (fs1, ''w'', w) \<and>
      entries w = [] \<and> fs1 ''tex'' = Some Dir \<and> fs_new ''tex'' = None"
    using 1 nn by auto
  have "fs_old (arg_file args_smart) \<noteq> Some Dir"
    by (simp add: demo_arg_file fs_old_def)
  with to demo_makedirs_old obtain m2 w2 where
    2: "open_archive args_smart fs_old = Inr (fs_old, m2, w2)"
    unfolding demo_archive_dir by blast
  from to 2 o have m2: "m2 = ''a''" unfolding demo_arg_file by blast
  from to 2 m2 have "fs_old (arg_file args_smart) = Some (File (entries w2))" by blast
  then have "entries w2 = [(\<lparr>info_name = ''floor'', file_size = 1, disk_size = 1,
      compression = NONE, info_type = LUMP\<rparr>, [0])]"
    by (simp add: demo_arg_file fs_old_def)
  then have "map info_name (map fst (entries w2)) = [''floor'']"
    by simp
  with 2 m2 have B: "\<exists>fs1 w. open_archive args_smart fs_old = Inr (fs1, ''a'', w) \<and>
       map info_name (map fst (entries w)) = [''floor'']" by auto
  from A n B o show ?thesis by blast
qed

end
